theory Spec2Isabelle
  imports Complex_Main
begin

section \<open>Python values\<close>

text \<open>
  The merge stage of arxiv-references works on dynamically typed field values: a field of a
  reference is \<^verbatim>\<open>None\<close>, a number, a string, a list (authors, identifiers) or a
  dictionary (one author, one identifier). Strings are lists of characters; the character
  predicates below classify the code points below 128 as Python's \<^verbatim>\<open>str\<close> methods and
  the \<^verbatim>\<open>re\<close> module do, so the string functions describe the code on ASCII text.
  Floats are modelled as real numbers: every float the functions below produce is a quotient
  of small integers, and rounding is outside the model.
\<close>

datatype pyval =
    PNone
  | PBool bool
  | PInt int
  | PFloat real
  | PStr string
  | PList "pyval list"
  | PDict "(string \<times> pyval) list"

datatype error =
    TypeError
  | ValueError
  | AttributeError
  | ZeroDivisionError
  | StatisticsError

text \<open>Truth value testing (\<^verbatim>\<open>if not value\<close>): the empty and zero values are false.\<close>

fun truthy :: "pyval \<Rightarrow> bool" where
  "truthy PNone = False"
| "truthy (PBool b) = b"
| "truthy (PInt n) = (n \<noteq> 0)"
| "truthy (PFloat x) = (x \<noteq> 0)"
| "truthy (PStr s) = (s \<noteq> [])"
| "truthy (PList xs) = (xs \<noteq> [])"
| "truthy (PDict d) = (d \<noteq> [])"

section \<open>Characters and strings\<close>

definition is_digit :: "char \<Rightarrow> bool" where
  "is_digit c = (c \<in> set ''0123456789'')"

text \<open>
  \<^verbatim>\<open>str.isspace\<close>, \<^verbatim>\<open>str.strip\<close>, \<^verbatim>\<open>str.split\<close> and the class
  \<^verbatim>\<open>\s\<close> of a \<^verbatim>\<open>str\<close> pattern agree on whitespace: tab to carriage return, the four
  separators 0x1C to 0x1F, and the space.
\<close>

definition is_space :: "char \<Rightarrow> bool" where
  "is_space c = (c \<in> set [CHR 0x09, CHR 0x0A, CHR 0x0B, CHR 0x0C, CHR 0x0D,
                            CHR 0x1C, CHR 0x1D, CHR 0x1E, CHR 0x1F, CHR 0x20])"

text \<open>\<^verbatim>\<open>int()\<close> skips the whitespace of C only around an ASCII literal.\<close>

definition is_c_space :: "char \<Rightarrow> bool" where
  "is_c_space c = (c \<in> set [CHR 0x09, CHR 0x0A, CHR 0x0B, CHR 0x0C, CHR 0x0D, CHR 0x20])"








text \<open>\<^verbatim>\<open>s.startswith(p)\<close>, \<^verbatim>\<open>s.endswith(p)\<close> and \<^verbatim>\<open>sub in s\<close>.\<close>

fun startswith :: "string \<Rightarrow> string \<Rightarrow> bool" where
  "startswith s [] = True"
| "startswith [] (p # ps) = False"
| "startswith (c # cs) (p # ps) = (c = p \<and> startswith cs ps)"

definition endswith :: "string \<Rightarrow> string \<Rightarrow> bool" where
  "endswith s p = startswith (rev s) (rev p)"

fun str_in :: "string \<Rightarrow> string \<Rightarrow> bool" where
  "str_in sub [] = (sub = [])"
| "str_in sub (c # cs) = (startswith (c # cs) sub \<or> str_in sub cs)"

text \<open>
  \<^verbatim>\<open>s.replace(old, new)\<close> replaces the occurrences of \<^verbatim>\<open>old\<close> found from left to
  right, each search starting after the previous occurrence; an empty \<^verbatim>\<open>old\<close> matches
  before every character and at the end.
\<close>

fun replace_loop :: "string \<Rightarrow> string \<Rightarrow> string \<Rightarrow> string" where
  "replace_loop old new [] = []"
| "replace_loop old new (c # cs) =
     (if startswith (c # cs) old then new @ replace_loop old new (drop (length old - 1) cs)
      else c # replace_loop old new cs)"

definition py_replace :: "string \<Rightarrow> string \<Rightarrow> string \<Rightarrow> string" where
  "py_replace s old new =
     (if old = [] then new @ concat (map (\<lambda>c. c # new) s) else replace_loop old new s)"




lemma length_dropWhile_less [termination_simp]: "length (dropWhile P xs) < Suc (length xs)"
  by (simp add: length_dropWhile_le less_Suc_eq_le)

text \<open>\<^verbatim>\<open>s.split()\<close>: the maximal runs of characters that are not whitespace.\<close>

fun split :: "string \<Rightarrow> string list" where
  "split [] = []"
| "split (c # cs) =
     (if is_space c then split cs
      else takeWhile (\<lambda>x. \<not> is_space x) (c # cs) # split (dropWhile (\<lambda>x. \<not> is_space x) cs))"

text \<open>\<^verbatim>\<open>sep.join(parts)\<close>.\<close>

fun join :: "string \<Rightarrow> string list \<Rightarrow> string" where
  "join sep [] = []"
| "join sep [x] = x"
| "join sep (x # y # ys) = x @ sep @ join sep (y # ys)"

section \<open>Built-in functions\<close>

text \<open>Results of code that may raise: \<^verbatim>\<open>Inl\<close> carries the exception.\<close>

definition and_then :: "error + 'a \<Rightarrow> ('a \<Rightarrow> error + 'b) \<Rightarrow> error + 'b" where
  "and_then m f = (case m of Inl e \<Rightarrow> Inl e | Inr x \<Rightarrow> f x)"

text \<open>A list comprehension whose element expression may raise stops at the first exception.\<close>

fun collect :: "('a \<Rightarrow> error + 'b) \<Rightarrow> 'a list \<Rightarrow> error + 'b list" where
  "collect f [] = Inr []"
| "collect f (x # xs) =
     (case f x of
        Inl e \<Rightarrow> Inl e
      | Inr y \<Rightarrow> (case collect f xs of Inl e \<Rightarrow> Inl e | Inr ys \<Rightarrow> Inr (y # ys)))"

text \<open>
  \<^verbatim>\<open>int(s)\<close> for a string: optional whitespace, an optional sign, then decimal digits in
  which single underscores may separate digits.
\<close>

definition digit_value :: "char \<Rightarrow> int" where
  "digit_value c = (case map_of (zip ''0123456789'' [0, 1, 2, 3, 4, 5, 6, 7, 8, 9]) c of
                      None \<Rightarrow> 0 | Some d \<Rightarrow> d)"

definition int_of_digits :: "string \<Rightarrow> int" where
  "int_of_digits ds = foldl (\<lambda>a c. 10 * a + digit_value c) 0 ds"

fun digits_underscored :: "string \<Rightarrow> bool" where
  "digits_underscored [] = False"
| "digits_underscored [c] = is_digit c"
| "digits_underscored (c # d # cs) =
     (is_digit c \<and> (if d = CHR ''_'' then digits_underscored cs else digits_underscored (d # cs)))"

definition c_strip :: "string \<Rightarrow> string" where
  "c_strip s = rev (dropWhile is_c_space (rev (dropWhile is_c_space s)))"

definition int_of_str :: "string \<Rightarrow> int option" where
  "int_of_str s =
     (let t = c_strip s;
          negative = (t \<noteq> [] \<and> hd t = CHR ''-'');
          body = (if t \<noteq> [] \<and> (hd t = CHR ''-'' \<or> hd t = CHR ''+'') then tl t else t)
      in if digits_underscored body
         then Some ((if negative then - 1 else 1)
                    * int_of_digits (filter (\<lambda>c. c \<noteq> CHR ''_'') body))
         else None)"

text \<open>
  \<^verbatim>\<open>int(value)\<close>: \<^verbatim>\<open>ValueError\<close> for a string that is not a literal,
  \<^verbatim>\<open>TypeError\<close> for a value that is no number and no string; a float is truncated
  towards zero.
\<close>

fun py_int :: "pyval \<Rightarrow> error + int" where
  "py_int PNone = Inl TypeError"
| "py_int (PBool b) = Inr (if b then 1 else 0)"
| "py_int (PInt n) = Inr n"
| "py_int (PFloat x) = Inr (if x \<ge> 0 then \<lfloor>x\<rfloor> else \<lceil>x\<rceil>)"
| "py_int (PStr s) = (case int_of_str s of None \<Rightarrow> Inl ValueError | Some n \<Rightarrow> Inr n)"
| "py_int (PList xs) = Inl TypeError"
| "py_int (PDict d) = Inl TypeError"

text \<open>\<^verbatim>\<open>len(value)\<close> and iteration (\<^verbatim>\<open>for x in value\<close>).\<close>

fun py_len :: "pyval \<Rightarrow> error + nat" where
  "py_len (PStr s) = Inr (length s)"
| "py_len (PList xs) = Inr (length xs)"
| "py_len (PDict d) = Inr (length d)"
| "py_len v = Inl TypeError"

fun py_iter :: "pyval \<Rightarrow> error + pyval list" where
  "py_iter (PStr s) = Inr (map (\<lambda>c. PStr [c]) s)"
| "py_iter (PList xs) = Inr xs"
| "py_iter (PDict d) = Inr (map (\<lambda>kv. PStr (fst kv)) d)"
| "py_iter v = Inl TypeError"

text \<open>\<^verbatim>\<open>d.get(key, default)\<close> on a dictionary.\<close>

definition dict_get :: "(string \<times> pyval) list \<Rightarrow> string \<Rightarrow> pyval \<Rightarrow> pyval" where
  "dict_get d key dflt = (case map_of d key of None \<Rightarrow> dflt | Some v \<Rightarrow> v)"

section \<open>beliefs.py: the regular expressions\<close>

text \<open>
  \<^verbatim>\<open>RE_INTEGER = (?:^|(?:\s+))(\d+)(?:$|(?:\s+))\<close>. An attempt at a position takes
  \<^verbatim>\<open>^\<close> (at the beginning of the string only) or a maximal run of whitespace, then a
  maximal run of digits (the group), then \<^verbatim>\<open>$\<close> (the end of the string, or the
  position before a final newline) or, failing that, a maximal run of whitespace. Giving back
  a character of a run never helps, since the next item would face a character of the run.
  The functions return the group and the number of characters matched.
\<close>

definition re_integer_tail :: "string \<Rightarrow> nat option" where
  "re_integer_tail r =
     (if r = [] \<or> r = [CHR 0x0A] then Some 0
      else if takeWhile is_space r = [] then None
      else Some (length (takeWhile is_space r)))"

definition re_integer_body :: "string \<Rightarrow> (string \<times> nat) option" where
  "re_integer_body r =
     (let ds = takeWhile is_digit r
      in if ds = [] then None
         else (case re_integer_tail (dropWhile is_digit r) of
                 None \<Rightarrow> None
               | Some n \<Rightarrow> Some (ds, length ds + n)))"

definition re_integer_at :: "bool \<Rightarrow> string \<Rightarrow> (string \<times> nat) option" where
  "re_integer_at at_beginning r =
     (case (if at_beginning then re_integer_body r else None) of
        Some m \<Rightarrow> Some m
      | None \<Rightarrow>
          (let ws = takeWhile is_space r
           in if ws = [] then None
              else (case re_integer_body (dropWhile is_space r) of
                      None \<Rightarrow> None
                    | Some (g, n) \<Rightarrow> Some (g, length ws + n))))"

text \<open>
  \<^verbatim>\<open>re.findall\<close> and \<^verbatim>\<open>re.subn\<close> scan the string from left to right: a match is
  taken at the first position where an attempt succeeds and the scan goes on behind it; other
  characters are passed over. A match of this expression is never empty.
\<close>

datatype segment = Skipped char | Matched string string

fun re_integer_scan :: "bool \<Rightarrow> string \<Rightarrow> segment list" where
  "re_integer_scan at_beginning [] = []"
| "re_integer_scan at_beginning (c # cs) =
     (case re_integer_at at_beginning (c # cs) of
        None \<Rightarrow> Skipped c # re_integer_scan False cs
      | Some (g, n) \<Rightarrow> Matched (take n (c # cs)) g # re_integer_scan False (drop (n - 1) cs))"

definition groups :: "segment list \<Rightarrow> string list" where
  "groups segs = concat (map (\<lambda>x. case x of Skipped c \<Rightarrow> [] | Matched m g \<Rightarrow> [g]) segs)"

definition unmatched :: "segment list \<Rightarrow> string" where
  "unmatched segs = concat (map (\<lambda>x. case x of Skipped c \<Rightarrow> [c] | Matched m g \<Rightarrow> []) segs)"

text \<open>\<^verbatim>\<open>re.findall(RE_INTEGER, value)\<close>; a value that is no string is a \<^verbatim>\<open>TypeError\<close>.\<close>

definition findall_integer :: "pyval \<Rightarrow> error + string list" where
  "findall_integer value =
     (case value of PStr s \<Rightarrow> Inr (groups (re_integer_scan True s)) | _ \<Rightarrow> Inl TypeError)"

text \<open>\<^verbatim>\<open>re.subn(RE_INTEGER, '', value)[0]\<close>.\<close>

definition subn_integer :: "pyval \<Rightarrow> error + string" where
  "subn_integer value =
     (case value of PStr s \<Rightarrow> Inr (unmatched (re_integer_scan True s)) | _ \<Rightarrow> Inl TypeError)"

text \<open>
  The expression of \<^verbatim>\<open>is_pages\<close>, \<^verbatim>\<open>(\d+)(?:\s+)?[\s\-._/\:]+(?:\s+)?(\d+)\<close>,
  matched at the beginning of the string: a maximal run of digits, a run of separators
  (whitespace and \<^verbatim>\<open>- . _ / :\<close>), a maximal run of digits. The result is the two groups.
\<close>

definition is_pages_separator :: "char \<Rightarrow> bool" where
  "is_pages_separator c = (is_space c \<or> c \<in> set ''-._/:'')"

definition pages_match :: "string \<Rightarrow> (string \<times> string) option" where
  "pages_match s =
     (let g1 = takeWhile is_digit s;
          r1 = dropWhile is_digit s;
          sep = takeWhile is_pages_separator r1;
          r2 = dropWhile is_pages_separator r1;
          g2 = takeWhile is_digit r2
      in if g1 = [] \<or> sep = [] \<or> g2 = [] then None else Some (g1, g2))"

section \<open>beliefs.py: the belief functions\<close>

text \<open>
  What \<^verbatim>\<open>beliefs.py\<close> imports from modules outside the sources at hand is a parameter:
  \<^verbatim>\<open>clean_text\<close> (called on a joined author name with its defaults, and on a field
  value with \<^verbatim>\<open>numok=True\<close>), the two bloom filters (both loaded, or none), and
  whether \<^verbatim>\<open>re.match\<close> succeeds for \<^verbatim>\<open>REGEX_DOI\<close>, \<^verbatim>\<open>REGEX_ISBN_10\<close>,
  \<^verbatim>\<open>REGEX_ISBN_13\<close> and \<^verbatim>\<open>REGEX_ARXIV_STRICT\<close>.
\<close>

record env =
  clean_text :: "string \<Rightarrow> error + string"
  clean_text_numok :: "pyval \<Rightarrow> error + string"
  bloom_title :: "(string \<Rightarrow> bool) option"
  bloom_auth :: "(string \<Rightarrow> bool) option"
  regex_doi :: "string \<Rightarrow> bool"
  regex_isbn_10 :: "string \<Rightarrow> bool"
  regex_isbn_13 :: "string \<Rightarrow> bool"
  regex_arxiv_strict :: "string \<Rightarrow> bool"

type_synonym belief_function = "pyval \<Rightarrow> error + real"

definition bloom_match :: "env \<Rightarrow> (string \<Rightarrow> bool) \<Rightarrow> belief_function" where
  "bloom_match e bloom_filter value =
     (case clean_text_numok e value of
        Inl err \<Rightarrow> Inl err
      | Inr text \<Rightarrow>
          (let score = map (\<lambda>word. if bloom_filter word then 1 else 0) (split text)
           in if length score = 0 then Inr 0
              else Inr (sum_list score / real (length score))))"

definition minimum_length :: "nat \<Rightarrow> belief_function" where
  "minimum_length n value =
     (case py_len value of
        Inl err \<Rightarrow> Inl err
      | Inr l \<Rightarrow> if n > l \<and> l > 0 then Inr 0 else Inr 1)"

definition likely :: "belief_function \<Rightarrow> real \<Rightarrow> real \<Rightarrow> belief_function" where
  "likely func min_prob max_prob value =
     (case func value of
        Inl err \<Rightarrow> Inl err
      | Inr p \<Rightarrow> Inr (max (min p max_prob) min_prob))"

definition does_not_contain_arxiv :: belief_function where
  "does_not_contain_arxiv value =
     (case value of
        PStr s \<Rightarrow> Inr (if str_in ''arxiv'' s then 0 else 1)
      | _ \<Rightarrow> Inr 0)"

definition contains :: "string \<Rightarrow> real \<Rightarrow> real \<Rightarrow> belief_function" where
  "contains substring false_prob true_prob value =
     (case value of
        PStr s \<Rightarrow> Inr (if str_in substring s then true_prob else false_prob)
      | _ \<Rightarrow> Inr 0)"

definition ends_with :: "string \<Rightarrow> real \<Rightarrow> real \<Rightarrow> belief_function" where
  "ends_with substring false_prob true_prob value =
     (case value of
        PStr s \<Rightarrow> Inr (if endswith s substring then true_prob else false_prob)
      | _ \<Rightarrow> Inr 0)"

definition doesnt_end_with :: "string \<Rightarrow> real \<Rightarrow> real \<Rightarrow> belief_function" where
  "doesnt_end_with substring false_prob true_prob = ends_with substring true_prob false_prob"

text \<open>\<^verbatim>\<open>is_integer\<close> and \<^verbatim>\<open>is_year\<close> catch \<^verbatim>\<open>ValueError\<close> only.\<close>

definition is_integer :: belief_function where
  "is_integer value =
     (case py_int value of
        Inl err \<Rightarrow> (if err = ValueError then Inr 0 else Inl err)
      | Inr n \<Rightarrow> Inr 1)"

definition is_integer_like :: belief_function where
  "is_integer_like value =
     (if value = PNone then Inr 0
      else if (case value of PInt n \<Rightarrow> True | PBool b \<Rightarrow> True | _ \<Rightarrow> False) then Inr 1
      else if py_len value = Inr 0 then Inr 0
      else (case value of
              PStr s \<Rightarrow>
                and_then (findall_integer value) (\<lambda>numbers.
                and_then (subn_integer value) (\<lambda>leftovers.
                  if numbers = [] then Inr 0
                  else and_then (collect (\<lambda>i. is_integer (PStr i)) numbers) (\<lambda>results.
                    Inr ((sum_list results / real (length numbers))
                         * (real_of_int (int (length s) - int (length leftovers))
                            / real (length s))))))
            | _ \<Rightarrow> Inr 0))"

definition is_year :: belief_function where
  "is_year value =
     (case py_int value of
        Inl err \<Rightarrow> (if err = ValueError then Inr 0 else Inl err)
      | Inr year \<Rightarrow> if year > 1600 \<and> year < 2100 then Inr 1 else Inr 0)"

text \<open>\<^verbatim>\<open>is_year_like\<close> wraps its whole body in \<^verbatim>\<open>except Exception\<close>.\<close>

definition is_year_like_body :: belief_function where
  "is_year_like_body value =
     and_then (findall_integer value) (\<lambda>numbers.
       if numbers = [] then Inr 0
       else and_then (collect (\<lambda>i. is_year (PStr i)) numbers) (\<lambda>results.
         Inr ((1 * sum_list results) / real (length numbers))))"

definition is_year_like :: belief_function where
  "is_year_like value = (case is_year_like_body value of Inl err \<Rightarrow> Inr 0 | Inr p \<Rightarrow> Inr p)"

definition is_pages :: belief_function where
  "is_pages value =
     (case value of
        PStr s \<Rightarrow>
          (case pages_match s of
             None \<Rightarrow> Inr 0
           | Some (g1, g2) \<Rightarrow>
               and_then (py_int (PStr g1)) (\<lambda>start.
               and_then (py_int (PStr g2)) (\<lambda>stop.
                 if start < stop then Inr 1 else Inr 0.5)))
      | _ \<Rightarrow> Inl TypeError)"

definition valid_doi :: "env \<Rightarrow> belief_function" where
  "valid_doi e value =
     (case value of
        PStr s \<Rightarrow> if regex_doi e s then Inr 1 else Inr 0
      | _ \<Rightarrow> Inl TypeError)"

text \<open>
  The body of the loop of \<^verbatim>\<open>valid_identifier\<close>: whether one identifier adds to
  \<^verbatim>\<open>num_good\<close>. An element without a \<^verbatim>\<open>get\<close> method is an
  \<^verbatim>\<open>AttributeError\<close>, an ISBN that is no string a \<^verbatim>\<open>TypeError\<close>.
\<close>

definition good_identifier :: "env \<Rightarrow> pyval \<Rightarrow> error + nat" where
  "good_identifier e ID =
     (case ID of
        PDict d \<Rightarrow>
          (let idtype = dict_get d ''identifier_type'' (PStr []);
               idvalue = dict_get d ''identifier'' (PStr [])
           in if idtype = PStr ''isbn''
              then (case idvalue of
                      PStr v \<Rightarrow>
                        if regex_isbn_10 e v then Inr 1
                        else if regex_isbn_13 e v then Inr 1
                        else Inr 0
                    | _ \<Rightarrow> Inl TypeError)
              else Inr 0)
      | _ \<Rightarrow> Inl AttributeError)"

definition valid_identifier :: "env \<Rightarrow> belief_function" where
  "valid_identifier e value =
     and_then (py_len value) (\<lambda>num_identifiers.
     and_then (py_iter value) (\<lambda>ids.
     and_then (collect (good_identifier e) ids) (\<lambda>goods.
       if num_identifiers = 0 then Inl ZeroDivisionError
       else Inr (real (sum_list goods) / real num_identifiers))))"

definition valid_arxiv_id :: "env \<Rightarrow> belief_function" where
  "valid_arxiv_id e value =
     (case value of
        PStr s \<Rightarrow> if regex_arxiv_strict e s then Inr 1 else Inr 0
      | _ \<Rightarrow> Inl TypeError)"

definition unity :: belief_function where
  "unity r = Inr 1"

text \<open>
  \<^verbatim>\<open>words_title\<close> and \<^verbatim>\<open>words_auth\<close> are \<^verbatim>\<open>unity\<close> unless the bloom filters
  were loaded.
\<close>

definition words_title :: "env \<Rightarrow> belief_function" where
  "words_title e =
     (case (bloom_title e, bloom_auth e) of
        (Some ft, Some fa) \<Rightarrow> bloom_match e ft
      | _ \<Rightarrow> unity)"

definition words_auth :: "env \<Rightarrow> belief_function" where
  "words_auth e =
     (case (bloom_title e, bloom_auth e) of
        (Some ft, Some fa) \<Rightarrow> bloom_match e fa
      | _ \<Rightarrow> unity)"

text \<open>
  The body of the loop of \<^verbatim>\<open>words_author_structure\<close>: the value added to
  \<^verbatim>\<open>num_good\<close> for one author.
\<close>

definition str_values :: "(string \<times> pyval) list \<Rightarrow> error + string list" where
  "str_values d = collect (\<lambda>kv. case snd kv of PStr s \<Rightarrow> Inr s | _ \<Rightarrow> Inl TypeError) d"

definition author_mod :: "env \<Rightarrow> pyval \<Rightarrow> error + real" where
  "author_mod e auth =
     (case auth of
        PDict d \<Rightarrow>
          and_then (str_values d) (\<lambda>vals.
          and_then (clean_text e (join '' '' vals)) (\<lambda>name.
          and_then (words_auth e (PStr name)) (\<lambda>modv.
            (let surname = dict_get d ''surname'' PNone
             in if truthy surname
                then (case surname of
                        PStr sn \<Rightarrow>
                          if length (split sn) = 0 then Inl ZeroDivisionError
                          else Inr (modv * (1 / real (length (split sn))))
                      | _ \<Rightarrow> Inl AttributeError)
                else Inr modv))))
      | _ \<Rightarrow> Inl AttributeError)"

definition words_author_structure :: "env \<Rightarrow> belief_function" where
  "words_author_structure e value =
     and_then (py_iter value) (\<lambda>auths.
     and_then (collect (author_mod e) auths) (\<lambda>mods.
       if length mods = 0 then Inr 0
       else Inr (sum_list mods / real (length mods))))"

definition BELIEF_FUNCTIONS :: "env \<Rightarrow> (string \<times> belief_function list) list" where
  "BELIEF_FUNCTIONS e =
     [(''title'', [words_title e, minimum_length 5]),
      (''raw'', [words_title e, words_auth e]),
      (''authors'', [words_author_structure e]),
      (''doi'', [valid_doi e, contains ''.'' 0 1, contains ''/'' 0 1, doesnt_end_with ''-'' 0 1]),
      (''volume'', [likely is_integer_like 0.8 1]),
      (''pages'', [is_integer_like, is_pages]),
      (''source'', [does_not_contain_arxiv]),
      (''year'', [is_integer_like, is_integer, is_year_like, is_year]),
      (''identifiers'', [valid_identifier e]),
      (''arxiv'', [valid_arxiv_id e])]"

text \<open>
  \<^verbatim>\<open>calculate_belief\<close> iterates over \<^verbatim>\<open>reference.to_dict().items()\<close>; the
  reference is given by that dictionary, a list of (key, value) pairs. The inner loop runs the
  functions of one field: the result of a function is added to \<^verbatim>\<open>score\<close>, an exception
  is logged and leaves \<^verbatim>\<open>score\<close> as it is. The log is the list of the
  \<^verbatim>\<open>logger.error\<close> calls, each with the key and the exception.
\<close>

type_synonym log = "(string \<times> error) list"

fun score_loop ::
  "string \<Rightarrow> belief_function list \<Rightarrow> pyval \<Rightarrow> real \<Rightarrow> log \<Rightarrow> real \<times> log" where
  "score_loop key [] value score lg = (score, lg)"
| "score_loop key (func # funcs) value score lg =
     (case func value of
        Inr p \<Rightarrow> score_loop key funcs value (score + p) lg
      | Inl err \<Rightarrow> score_loop key funcs value score (lg @ [(key, err)]))"

fun belief_loop ::
  "env \<Rightarrow> (string \<times> pyval) list \<Rightarrow> (string \<rightharpoonup> real) \<Rightarrow> log
     \<Rightarrow> error + (string \<rightharpoonup> real) \<times> log" where
  "belief_loop e [] output lg = Inr (output, lg)"
| "belief_loop e ((key, value) # items) output lg =
     (if \<not> truthy value then belief_loop e items (output(key \<mapsto> 1)) lg
      else (let funcs = (case map_of (BELIEF_FUNCTIONS e) key of
                           None \<Rightarrow> [unity]
                         | Some fs \<Rightarrow> fs)
            in case score_loop key funcs value 0 lg of
                 (score, lg') \<Rightarrow>
                   if length funcs = 0 then Inl ZeroDivisionError
                   else belief_loop e items
                          (output(key \<mapsto> score / real (length funcs))) lg'))"

definition calculate_belief ::
  "env \<Rightarrow> (string \<times> pyval) list \<Rightarrow> error + (string \<rightharpoonup> real) \<times> log" where
  "calculate_belief e reference = belief_loop e reference Map.empty []"

section \<open>Objects and the store\<close>

text \<open>
  A \<^verbatim>\<open>Reference\<close> is a mutable object. \<^verbatim>\<open>filter_records\<close> and
  \<^verbatim>\<open>normalize_record\<close> write attributes of the objects they are handed, so an object is
  its attribute dictionary and the store maps object identities to objects.
\<close>

type_synonym obj = "string \<rightharpoonup> pyval"
type_synonym addr = nat
type_synonym heap = "addr \<Rightarrow> obj"


definition setattr :: "obj \<Rightarrow> string \<Rightarrow> pyval \<Rightarrow> obj" where
  "setattr ob field v = ob(field \<mapsto> v)"

definition heap_setattr :: "heap \<Rightarrow> addr \<Rightarrow> string \<Rightarrow> pyval \<Rightarrow> heap" where
  "heap_setattr h a field v = h(a := setattr (h a) field v)"

section \<open>normalize.py: the normalizers\<close>








text \<open>
  \<^verbatim>\<open>typo in value\<close> and \<^verbatim>\<open>value.replace(typo, category)\<close> for the values
  \<^verbatim>\<open>_fix_arxiv_id\<close> may meet behind its test for a list.
\<close>

fun py_in :: "string \<Rightarrow> pyval \<Rightarrow> error + bool" where
  "py_in x (PStr s) = Inr (str_in x s)"
| "py_in x (PList xs) = Inr (PStr x \<in> set xs)"
| "py_in x (PDict d) = Inr (x \<in> fst ` set d)"
| "py_in x v = Inl TypeError"

definition replace_method :: "pyval \<Rightarrow> string \<Rightarrow> string \<Rightarrow> error + pyval" where
  "replace_method value old new =
     (case value of PStr s \<Rightarrow> Inr (PStr (py_replace s old new)) | _ \<Rightarrow> Inl AttributeError)"

text \<open>
  The loop of \<^verbatim>\<open>_fix_arxiv_id\<close> over the keys of \<^verbatim>\<open>taxonomy.ARCHIVES\<close>: it
  returns at the first category whose code without hyphens occurs in the value.
\<close>

fun fix_loop :: "string list \<Rightarrow> pyval \<Rightarrow> error + pyval" where
  "fix_loop [] value = Inr value"
| "fix_loop (category # categories) value =
     (let typo = py_replace category ''-'' []
      in and_then (py_in typo value) (\<lambda>found.
           if found then replace_method value typo category
           else fix_loop categories value))"

lemma collect_cong [fundef_cong]:
  "xs = ys \<Longrightarrow> (\<And>x. x \<in> set ys \<Longrightarrow> f x = g x) \<Longrightarrow> collect f xs = collect g ys"
  by (induction ys arbitrary: xs) (auto split: sum.splits)

text \<open>
  The keys of \<^verbatim>\<open>taxonomy.ARCHIVES\<close> come from the package \<^verbatim>\<open>arxiv\<close>, which is not
  among the sources; they are the parameter \<^verbatim>\<open>archives\<close>.
\<close>

fun fix_arxiv_id :: "string list \<Rightarrow> pyval \<Rightarrow> error + pyval" where
  "fix_arxiv_id archives (PList xs) =
     and_then (collect (fix_arxiv_id archives) xs) (\<lambda>ys. Inr (PList ys))"
| "fix_arxiv_id archives PNone = fix_loop archives PNone"
| "fix_arxiv_id archives (PBool b) = fix_loop archives (PBool b)"
| "fix_arxiv_id archives (PInt n) = fix_loop archives (PInt n)"
| "fix_arxiv_id archives (PFloat x) = fix_loop archives (PFloat x)"
| "fix_arxiv_id archives (PStr s) = fix_loop archives (PStr s)"
| "fix_arxiv_id archives (PDict d) = fix_loop archives (PDict d)"


section \<open>normalize.py: normalize\_record\<close>




section \<open>normalize.py: filter\_records\<close>

text \<open>\<^verbatim>\<open>statistics.mean\<close> raises \<^verbatim>\<open>StatisticsError\<close> on an empty sequence.\<close>

definition mean :: "real list \<Rightarrow> error + real" where
  "mean xs = (if xs = [] then Inl StatisticsError else Inr (sum_list xs / real (length xs)))"

text \<open>
  The loop of \<^verbatim>\<open>filter_records\<close>: \<^verbatim>\<open>ref.score = score\<close> for every pair, and the
  pair is appended to \<^verbatim>\<open>filtered\<close> when \<^verbatim>\<open>score >= threshold\<close>.
\<close>

fun filter_loop ::
  "heap \<Rightarrow> (addr \<times> real) list \<Rightarrow> real \<Rightarrow> (addr \<times> real) list \<Rightarrow> heap \<times> (addr \<times> real) list" where
  "filter_loop h [] threshold filtered = (h, filtered)"
| "filter_loop h ((ref, score) # records) threshold filtered =
     filter_loop (heap_setattr h ref ''score'' (PFloat score)) records threshold
       (if score \<ge> threshold then filtered @ [(ref, score)] else filtered)"

definition filter_records ::
  "heap \<Rightarrow> (addr \<times> real) list \<Rightarrow> real \<Rightarrow> error + (heap \<times> addr list \<times> real)" where
  "filter_records h records threshold =
     (case filter_loop h records threshold [] of (h', filtered) \<Rightarrow>
        if length filtered = 0 then Inr (h', [], 0)
        else (let ref_tuple = map fst filtered; scores = map snd filtered
              in case mean scores of
                   Inl e \<Rightarrow> Inl e
                 | Inr m \<Rightarrow> Inr (h', ref_tuple, m)))"

text \<open>The records of \<^verbatim>\<open>TestNormalize.setUp\<close>: three objects with scores 0.1, 0.4, 0.9.\<close>

definition test_heap :: heap where
  "test_heap =
     (\<lambda>a. if a = 0 then [''title'' \<mapsto> PStr ''bar'']
          else if a = 1 then [''title'' \<mapsto> PStr ''bat'']
          else if a = 2 then [''title'' \<mapsto> PStr ''ipsum'']
          else Map.empty)"

definition test_records :: "(addr \<times> real) list" where
  "test_records = [(0, 0.1), (1, 0.4), (2, 0.9)]"

section \<open>Vocabulary of the properties\<close>

text \<open>What the retained pairs of a list are, written with the library's filter.\<close>

definition retained :: "(addr \<times> real) list \<Rightarrow> real \<Rightarrow> (addr \<times> real) list" where
  "retained records threshold = filter (\<lambda>p. snd p \<ge> threshold) records"

text \<open>The store after the loop: the last score paired with an object is the one it keeps.\<close>

definition scored :: "heap \<Rightarrow> (addr \<times> real) list \<Rightarrow> heap" where
  "scored h records =
     (\<lambda>a. case map_of (rev records) a of
             None \<Rightarrow> h a
           | Some s \<Rightarrow> setattr (h a) ''score'' (PFloat s))"

text \<open>
  The functions registered for a field name, \<^verbatim>\<open>BELIEF_FUNCTIONS.get(key, [unity])\<close>;
  what one function contributes to the sum for a value (its output, or 0 when it raises); the
  mean that a populated field is given, and 1 for a field that is not populated.
\<close>

definition registered :: "env \<Rightarrow> string \<Rightarrow> belief_function list" where
  "registered e key = (case map_of (BELIEF_FUNCTIONS e) key of None \<Rightarrow> [unity] | Some fs \<Rightarrow> fs)"

definition contribution :: "pyval \<Rightarrow> belief_function \<Rightarrow> real" where
  "contribution value func = (case func value of Inl err \<Rightarrow> 0 | Inr p \<Rightarrow> p)"

definition field_belief :: "env \<Rightarrow> string \<Rightarrow> pyval \<Rightarrow> real" where
  "field_belief e key value =
     (if truthy value
      then sum_list (map (contribution value) (registered e key)) / real (length (registered e key))
      else 1)"

text \<open>The exceptions logged for a field: one entry for every function that raises.\<close>

definition failures :: "string \<Rightarrow> belief_function list \<Rightarrow> pyval \<Rightarrow> log" where
  "failures key funcs value =
     concat (map (\<lambda>func. case func value of Inl err \<Rightarrow> [(key, err)] | Inr p \<Rightarrow> []) funcs)"

definition field_log :: "env \<Rightarrow> string \<times> pyval \<Rightarrow> log" where
  "field_log e item =
     (if truthy (snd item) then failures (fst item) (registered e (fst item)) (snd item) else [])"

text \<open>The belief map of a reference; for a key that occurs twice the last item counts.\<close>

definition beliefs :: "env \<Rightarrow> (string \<times> pyval) list \<Rightarrow> (string \<rightharpoonup> real)" where
  "beliefs e reference =
     map_of (rev (map (\<lambda>item. (fst item, field_belief e (fst item) (snd item))) reference))"

text \<open>
  An environment without bloom filters and with identifier expressions that match nothing,
  and references to evaluate the functions on: the first reference of \<^verbatim>\<open>TestMergeSimple\<close>
  with a page number, an empty title and a field without registered functions added.
\<close>

definition test_env :: env where
  "test_env =
     \<lparr>clean_text = (\<lambda>s. Inr s),
      clean_text_numok = (\<lambda>v. case v of PStr s \<Rightarrow> Inr s | _ \<Rightarrow> Inl TypeError),
      bloom_title = None, bloom_auth = None,
      regex_doi = (\<lambda>s. False), regex_isbn_10 = (\<lambda>s. False), regex_isbn_13 = (\<lambda>s. False),
      regex_arxiv_strict = (\<lambda>s. False)\<rparr>"

definition test_reference :: "(string \<times> pyval) list" where
  "test_reference =
     [(''source'', PStr ''Matthew''), (''volume'', PStr ''uuddlrlrba''), (''year'', PInt 2011),
      (''pages'', PInt 12), (''title'', PStr []), (''reftype'', PStr ''misc'')]"

definition empty_reference :: "(string \<times> pyval) list" where
  "empty_reference =
     [(''title'', PStr []), (''year'', PNone), (''authors'', PList []), (''identifiers'', PList []),
      (''volume'', PInt 0)]"

definition test_identifiers :: pyval where
  "test_identifiers =
     PList [PDict [(''identifier_type'', PStr ''isbn''), (''identifier'', PStr ''0306406152'')]]"

text \<open>
  Runs of characters: a non-empty run of digits, a non-empty run of page separators, and a
  rest that does not go on with a character of the run before it.
\<close>

definition digit_run :: "string \<Rightarrow> bool" where
  "digit_run g = (g \<noteq> [] \<and> list_all is_digit g)"

definition separator_run :: "string \<Rightarrow> bool" where
  "separator_run sep = (sep \<noteq> [] \<and> list_all is_pages_separator sep)"

definition ends_run :: "(char \<Rightarrow> bool) \<Rightarrow> string \<Rightarrow> bool" where
  "ends_run P rest = (rest = [] \<or> \<not> P (hd rest))"

text \<open>
  The numeric tokens that \<^verbatim>\<open>RE_INTEGER\<close> recognizes in a string, the number of
  characters its matches occupy (a match holds the whitespace around its token), and whether
  \<^verbatim>\<open>int\<close> accepts a token.
\<close>

definition segment_text :: "segment \<Rightarrow> string" where
  "segment_text x = (case x of Skipped c \<Rightarrow> [c] | Matched m g \<Rightarrow> m)"

definition matched_length :: "segment list \<Rightarrow> nat" where
  "matched_length segs =
     sum_list (map (\<lambda>x. case x of Skipped c \<Rightarrow> 0 | Matched m g \<Rightarrow> length m) segs)"

definition numeric_tokens :: "string \<Rightarrow> string list" where
  "numeric_tokens s = groups (re_integer_scan True s)"

definition numeric_portion :: "string \<Rightarrow> nat" where
  "numeric_portion s = matched_length (re_integer_scan True s)"

definition parses_as_integer :: "string \<Rightarrow> bool" where
  "parses_as_integer t = (int_of_str t \<noteq> None)"

text \<open>
  Modelled from the spec: the keys of \<^verbatim>\<open>taxonomy.ARCHIVES\<close>, "the full registry of archive
  category codes" (the package \<^verbatim>\<open>arxiv\<close> is not among the sources). They are the archive
  codes of arXiv, in the order of the registry.
\<close>

definition arxiv_archives :: "string list" where
  "arxiv_archives =
     [''acc-phys'', ''adap-org'', ''alg-geom'', ''ao-sci'', ''astro-ph'', ''atom-ph'',
      ''bayes-an'', ''chao-dyn'', ''chem-ph'', ''cmp-lg'', ''comp-gas'', ''cond-mat'', ''cs'',
      ''dg-ga'', ''econ'', ''eess'', ''funct-an'', ''gr-qc'', ''hep-ex'', ''hep-lat'', ''hep-ph'',
      ''hep-th'', ''math'', ''math-ph'', ''mtrl-th'', ''nlin'', ''nucl-ex'', ''nucl-th'',
      ''patt-sol'', ''physics'', ''plasm-ph'', ''q-alg'', ''q-bio'', ''q-fin'', ''quant-ph'',
      ''solv-int'', ''stat'', ''supr-con'', ''test'']"








text \<open>
  A category code with its hyphens dropped, \<^verbatim>\<open>category.replace('-', '')\<close>, and the number
  of places of a string at which a substring begins.
\<close>

definition dehyphenated :: "string \<Rightarrow> string" where
  "dehyphenated category = py_replace category ''-'' []"

fun count_in :: "string \<Rightarrow> string \<Rightarrow> nat" where
  "count_in sub [] = (if sub = [] then 1 else 0)"
| "count_in sub (c # cs) = (if startswith (c # cs) sub then 1 else 0) + count_in sub cs"

text \<open>
  The number of places of an identifier at which a hyphenated code of the registry occurs
  with its hyphens dropped, summed over the hyphenated codes. A value has a single drop when
  that number is at most one: for a string the string itself, for a list each of its
  elements; any other value has nothing to count.
\<close>

definition dropped_codes :: "string list \<Rightarrow> string \<Rightarrow> nat" where
  "dropped_codes archives s =
     sum_list (map (\<lambda>category. if dehyphenated category = category then 0
                               else count_in (dehyphenated category) s) archives)"

fun single_drop :: "string list \<Rightarrow> pyval \<Rightarrow> bool" where
  "single_drop archives (PStr s) = (dropped_codes archives s \<le> 1)"
| "single_drop archives (PList xs) = list_all (single_drop archives) xs"
| "single_drop archives v = True"


text \<open>The first string is the second one with hyphens inserted.\<close>

inductive hyphens_inserted :: "string \<Rightarrow> string \<Rightarrow> bool" where
  Nil: "hyphens_inserted [] []"
| Keep: "hyphens_inserted xs ys \<Longrightarrow> hyphens_inserted (x # xs) (x # ys)"
| Insert: "hyphens_inserted xs ys \<Longrightarrow> hyphens_inserted (CHR ''-'' # xs) ys"



section \<open>Properties of filter\_records\<close>

lemma scored_Cons:
  "scored (heap_setattr h r ''score'' (PFloat s)) records = scored h ((r, s) # records)"
proof
  fix a
  show "scored (heap_setattr h r ''score'' (PFloat s)) records a = scored h ((r, s) # records) a"
    by (cases "map_of (rev records) a")
       (auto simp: scored_def heap_setattr_def setattr_def map_add_def)
qed

lemma filter_loop_eq:
  "filter_loop h records t acc = (scored h records, acc @ retained records t)"
proof (induction records arbitrary: h acc)
  case Nil
  show ?case by (simp add: scored_def retained_def)
next
  case (Cons p records)
  obtain r s where p: "p = (r, s)" by (cases p)
  show ?case
    unfolding p by (simp add: Cons.IH scored_Cons) (simp add: retained_def)
qed

lemma filter_records_eq:
  "filter_records h records t =
     Inr (scored h records, map fst (retained records t),
          if retained records t = [] then 0
          else sum_list (map snd (retained records t)) / real (length (retained records t)))"
  by (simp add: filter_records_def filter_loop_eq mean_def)

lemma scored_distinct:
  assumes "distinct (map fst records)" and "(r, s) \<in> set records"
  shows "scored h records r ''score'' = Some (PFloat s)"
proof -
  from assms have "map_of (rev records) r = Some s"
    by (simp add: distinct_rev rev_map [symmetric])
  then show ?thesis by (simp add: scored_def setattr_def)
qed

text \<open>
  C3. \<^verbatim>\<open>filter_records\<close> returns, for every list of (record, score) pairs and every
  threshold, the records whose paired score is at least the threshold (the boundary included),
  in input order, together with the arithmetic mean of the retained scores (0 when nothing is
  retained). Every input record has had a paired score written to its \<^verbatim>\<open>score\<close>
  attribute, the dropped ones too: the store after the call differs from the store before it
  only in those attributes, an object that occurs in several pairs keeps the score of its
  last pair, and when the records are distinct objects each one carries its own paired score.
\<close>

theorem filter_records_spec:
  "filter_records h records t =
     Inr (scored h records,
          map fst (filter (\<lambda>p. snd p \<ge> t) records),
          (if filter (\<lambda>p. snd p \<ge> t) records = [] then 0
           else sum_list (map snd (filter (\<lambda>p. snd p \<ge> t) records))
                / real (length (filter (\<lambda>p. snd p \<ge> t) records))))
   \<and> (\<forall>a. scored h records a =
          (case map_of (rev records) a of
             None \<Rightarrow> h a
           | Some s \<Rightarrow> (h a)(''score'' \<mapsto> PFloat s)))
   \<and> (distinct (map fst records) \<longrightarrow>
        (\<forall>p \<in> set records. scored h records (fst p) ''score'' = Some (PFloat (snd p))))"
proof (intro conjI)
  show "filter_records h records t =
     Inr (scored h records,
          map fst (filter (\<lambda>p. snd p \<ge> t) records),
          (if filter (\<lambda>p. snd p \<ge> t) records = [] then 0
           else sum_list (map snd (filter (\<lambda>p. snd p \<ge> t) records))
                / real (length (filter (\<lambda>p. snd p \<ge> t) records))))"
    using filter_records_eq [of h records t] by (simp add: retained_def)
  show "\<forall>a. scored h records a =
          (case map_of (rev records) a of
             None \<Rightarrow> h a
           | Some s \<Rightarrow> (h a)(''score'' \<mapsto> PFloat s))"
    by (simp add: scored_def setattr_def split: option.split)
  show "distinct (map fst records) \<longrightarrow>
        (\<forall>p \<in> set records. scored h records (fst p) ''score'' = Some (PFloat (snd p)))"
    using scored_distinct [of records _ _ h] by auto
qed

theorem filter_records_spec_witness:
  "distinct (map fst test_records)
   \<and> filter_records test_heap test_records 0.4 = Inr (scored test_heap test_records, [1, 2], 0.65)
   \<and> scored test_heap test_records 0 ''score'' = Some (PFloat 0.1)
   \<and> scored test_heap test_records 1 ''score'' = Some (PFloat 0.4)
   \<and> scored test_heap test_records 2 ''score'' = Some (PFloat 0.9)"
proof -
  have d: "distinct (map fst test_records)"
    by (simp add: test_records_def)
  from filter_records_spec [of test_heap test_records "0.4"] d
  show ?thesis by (simp add: test_records_def)
qed

text \<open>
  C4. On the empty list \<^verbatim>\<open>filter_records\<close> returns the empty list and 0.0 for every
  threshold, and so it does whenever no score reaches the threshold; no input makes it raise
  (the model of \<^verbatim>\<open>statistics.mean\<close> raises on an empty sequence, and the guard on
  \<^verbatim>\<open>len(filtered)\<close> keeps the call from it).
\<close>

theorem filter_records_empty:
  "filter_records h [] t = Inr (h, [], 0)
   \<and> ((\<forall>p \<in> set records. snd p < t) \<longrightarrow>
        filter_records h records t = Inr (scored h records, [], 0))
   \<and> (\<exists>h' kept composite. filter_records h records t = Inr (h', kept, composite))"
proof (intro conjI impI)
  show "filter_records h [] t = Inr (h, [], 0)"
    by (simp add: filter_records_def)
next
  assume "\<forall>p \<in> set records. snd p < t"
  then have "retained records t = []"
    by (auto simp: retained_def filter_empty_conv)
  then show "filter_records h records t = Inr (scored h records, [], 0)"
    by (simp add: filter_records_eq)
next
  show "\<exists>h' kept composite. filter_records h records t = Inr (h', kept, composite)"
    by (simp add: filter_records_eq)
qed

theorem filter_records_empty_witness:
  "list_all (\<lambda>p. snd p < 1) test_records
   \<and> filter_records test_heap test_records 1 = Inr (scored test_heap test_records, [], 0)"
proof -
  have b: "\<forall>p \<in> set test_records. snd p < 1"
    by (simp add: test_records_def)
  from filter_records_empty [of test_heap 1 test_records] b
  show ?thesis by (simp add: list_all_iff)
qed

section \<open>Properties of the belief functions\<close>

lemma digit_not_space: "is_digit c \<Longrightarrow> \<not> is_space c"
  by (auto simp: is_digit_def is_space_def)

lemma digit_not_c_space: "is_digit c \<Longrightarrow> \<not> is_c_space c"
  by (auto simp: is_digit_def is_c_space_def)

lemma digit_not_separator: "is_digit c \<Longrightarrow> \<not> is_pages_separator c"
  by (auto simp: is_digit_def is_pages_separator_def is_space_def)

lemma digit_not_sign: "is_digit c \<Longrightarrow> c \<noteq> CHR ''-'' \<and> c \<noteq> CHR ''+'' \<and> c \<noteq> CHR ''_''"
  by (auto simp: is_digit_def)

lemma digits_underscored_digits:
  "ds \<noteq> [] \<Longrightarrow> list_all is_digit ds \<Longrightarrow> digits_underscored ds"
  by (induction ds rule: digits_underscored.induct) (auto simp: digit_not_sign)

lemma c_strip_digits:
  assumes "ds \<noteq> []" "list_all is_digit ds"
  shows "c_strip ds = ds"
proof -
  from assms have h: "\<not> is_c_space (hd ds)" and l: "\<not> is_c_space (last ds)"
    by (auto simp: list_all_iff digit_not_c_space)
  from assms(1) h have 1: "dropWhile is_c_space ds = ds"
    by (cases ds) auto
  from assms(1) l have 2: "dropWhile is_c_space (rev ds) = rev ds"
    by (cases "rev ds") (auto simp: last_rev hd_rev)
  show ?thesis by (simp add: c_strip_def 1 2)
qed

lemma int_of_str_digits:
  assumes "ds \<noteq> []" "list_all is_digit ds"
  shows "int_of_str ds = Some (int_of_digits ds)"
proof -
  from assms have hd: "hd ds \<noteq> CHR ''-''" "hd ds \<noteq> CHR ''+''"
    by (cases ds; auto simp: digit_not_sign)+
  from assms(2) have f: "filter (\<lambda>c. c \<noteq> CHR ''_'') ds = ds"
    by (induction ds) (auto simp: digit_not_sign)
  show ?thesis
    using assms hd by (simp add: int_of_str_def c_strip_digits digits_underscored_digits f)
qed

lemma py_int_digits:
  "ds \<noteq> [] \<Longrightarrow> list_all is_digit ds \<Longrightarrow> py_int (PStr ds) = Inr (int_of_digits ds)"
  by (simp add: int_of_str_digits)

lemma is_year_iff:
  "is_year v = Inr 1 \<longleftrightarrow> (\<exists>n. py_int v = Inr n \<and> 1600 < n \<and> n < 2100)"
  by (cases "py_int v") (auto simp: is_year_def)

lemma run_split:
  assumes "list_all P g" "ends_run P rest"
  shows "takeWhile P (g @ rest) = g \<and> dropWhile P (g @ rest) = rest"
  using assms by (induction g) (auto simp: ends_run_def takeWhile_eq_Nil_iff dropWhile_eq_self_iff)

lemma run_exists: "list_all P (takeWhile P s) \<and> ends_run P (dropWhile P s)"
  by (induction s) (auto simp: ends_run_def)

lemma pages_match_Some:
  "pages_match s = Some (g1, g2) \<longleftrightarrow>
     (\<exists>sep rest. s = g1 @ sep @ g2 @ rest \<and> digit_run g1 \<and> separator_run sep \<and> digit_run g2
        \<and> ends_run is_digit rest)"
proof
  assume m: "pages_match s = Some (g1, g2)"
  let ?r1 = "dropWhile is_digit s"
  let ?sep = "takeWhile is_pages_separator ?r1"
  let ?r2 = "dropWhile is_pages_separator ?r1"
  from m have g1: "g1 = takeWhile is_digit s" and g2: "g2 = takeWhile is_digit ?r2"
    and ne: "g1 \<noteq> []" "?sep \<noteq> []" "g2 \<noteq> []"
    by (auto simp: pages_match_def Let_def split: if_splits)
  have "s = g1 @ ?sep @ g2 @ dropWhile is_digit ?r2"
    by (simp add: g1 g2)
  moreover have "digit_run g1" "digit_run g2" "separator_run ?sep" "ends_run is_digit (dropWhile is_digit ?r2)"
    using ne run_exists [of is_digit s] run_exists [of is_digit ?r2] run_exists [of is_pages_separator ?r1]
    by (simp_all add: digit_run_def separator_run_def g1 [symmetric] g2 [symmetric])
  ultimately show "\<exists>sep rest. s = g1 @ sep @ g2 @ rest \<and> digit_run g1 \<and> separator_run sep \<and> digit_run g2
        \<and> ends_run is_digit rest" by blast
next
  assume "\<exists>sep rest. s = g1 @ sep @ g2 @ rest \<and> digit_run g1 \<and> separator_run sep \<and> digit_run g2
        \<and> ends_run is_digit rest"
  then obtain sep rest where s: "s = g1 @ sep @ g2 @ rest" and d1: "digit_run g1"
    and sp: "separator_run sep" and d2: "digit_run g2" and e: "ends_run is_digit rest"
    by blast
  from sp have e1: "ends_run is_digit (sep @ g2 @ rest)"
    by (cases sep) (auto simp: separator_run_def ends_run_def digit_not_separator)
  from d2 have e2: "ends_run is_pages_separator (g2 @ rest)"
    by (cases g2) (auto simp: digit_run_def ends_run_def digit_not_separator)
  from d1 e1 have 1: "takeWhile is_digit s = g1" "dropWhile is_digit s = sep @ g2 @ rest"
    using run_split [of is_digit g1 "sep @ g2 @ rest"] by (simp_all add: s digit_run_def)
  from sp e2 have 2: "takeWhile is_pages_separator (sep @ g2 @ rest) = sep"
    "dropWhile is_pages_separator (sep @ g2 @ rest) = g2 @ rest"
    using run_split [of is_pages_separator sep "g2 @ rest"] by (simp_all add: separator_run_def)
  from d2 e have 3: "takeWhile is_digit (g2 @ rest) = g2"
    using run_split [of is_digit g2 rest] by (simp add: digit_run_def)
  show "pages_match s = Some (g1, g2)"
    using d1 d2 sp by (simp add: pages_match_def 1 2 3 digit_run_def separator_run_def)
qed

lemma pages_match_None:
  "pages_match s = None \<longleftrightarrow>
     \<not> (\<exists>g1 sep g2 rest. s = g1 @ sep @ g2 @ rest \<and> digit_run g1 \<and> separator_run sep \<and> digit_run g2)"
proof -
  have "(\<exists>g1 sep g2 rest. s = g1 @ sep @ g2 @ rest \<and> digit_run g1 \<and> separator_run sep \<and> digit_run g2)
      \<longleftrightarrow> (\<exists>g1 g2. pages_match s = Some (g1, g2))" (is "?L \<longleftrightarrow> ?R")
  proof
    assume ?L
    then obtain g1 sep g2 rest where s: "s = g1 @ sep @ g2 @ rest" and d1: "digit_run g1"
      and sp: "separator_run sep" and d2: "digit_run g2" by blast
    let ?g2 = "g2 @ takeWhile is_digit rest"
    have "s = g1 @ sep @ ?g2 @ dropWhile is_digit rest" by (simp add: s)
    moreover have "digit_run ?g2" using d2 run_exists [of is_digit rest] by (simp add: digit_run_def)
    moreover have "ends_run is_digit (dropWhile is_digit rest)" using run_exists [of is_digit rest] by simp
    ultimately have "pages_match s = Some (g1, ?g2)"
      using d1 sp unfolding pages_match_Some by blast
    then show ?R by blast
  next
    assume ?R
    then show ?L unfolding pages_match_Some by blast
  qed
  then show ?thesis by (cases "pages_match s") auto
qed

lemma is_pages_str:
  "is_pages (PStr s) =
     Inr (case pages_match s of
            None \<Rightarrow> 0
          | Some (g1, g2) \<Rightarrow> if int_of_digits g1 < int_of_digits g2 then 1 else 0.5)"
proof (cases "pages_match s")
  case None
  then show ?thesis by (simp add: is_pages_def)
next
  case (Some p)
  obtain g1 g2 where p: "p = (g1, g2)" by (cases p)
  from Some p have "digit_run g1" "digit_run g2"
    using pages_match_Some [of s g1 g2] by auto
  then have "py_int (PStr g1) = Inr (int_of_digits g1)" "py_int (PStr g2) = Inr (int_of_digits g2)"
    by (simp_all add: digit_run_def int_of_str_digits)
  then show ?thesis using Some p by (simp add: is_pages_def and_then_def)
qed

lemma score_loop_eq:
  "score_loop key funcs value score lg =
     (score + sum_list (map (contribution value) funcs), lg @ failures key funcs value)"
  by (induction funcs arbitrary: score lg)
     (auto simp: contribution_def failures_def split: sum.splits)

lemma registered_nonempty: "registered e key \<noteq> []"
  by (simp add: registered_def BELIEF_FUNCTIONS_def unity_def)

lemma belief_loop_step:
  "belief_loop e ((key, value) # items) out lg =
     belief_loop e items (out(key \<mapsto> field_belief e key value)) (lg @ field_log e (key, value))"
proof (cases "truthy value")
  case False
  then show ?thesis by (simp add: field_belief_def field_log_def)
next
  case True
  with registered_nonempty [of e key] show ?thesis
    by (simp add: field_belief_def field_log_def score_loop_eq registered_def [symmetric] Let_def)
qed

lemma belief_loop_eq:
  "belief_loop e items out lg =
     Inr (out ++ beliefs e items, lg @ concat (map (field_log e) items))"
proof (induction items arbitrary: out lg)
  case Nil
  show ?case by (simp add: beliefs_def)
next
  case (Cons item items)
  obtain key "value" where item: "item = (key, value)" by (cases item)
  have "out(key \<mapsto> field_belief e key value) ++ beliefs e items
          = out ++ beliefs e ((key, value) # items)"
    by (simp add: beliefs_def map_add_assoc [symmetric])
  then show ?case
    unfolding item belief_loop_step Cons.IH by simp
qed

lemma calculate_belief_eq:
  "calculate_belief e reference = Inr (beliefs e reference, concat (map (field_log e) reference))"
  by (simp add: calculate_belief_def belief_loop_eq)

lemma beliefs_distinct:
  assumes "distinct (map fst reference)" and "(key, value) \<in> set reference"
  shows "beliefs e reference key = Some (field_belief e key value)"
proof -
  let ?g = "\<lambda>item. (fst item, field_belief e (fst item) (snd item))"
  have m: "map fst (rev (map ?g reference)) = rev (map fst reference)"
    by (simp add: rev_map comp_def)
  from assms(1) have "distinct (map fst (rev (map ?g reference)))"
    unfolding m by simp
  moreover from assms(2) have "(key, field_belief e key value) \<in> set (rev (map ?g reference))"
    by force
  ultimately show ?thesis
    unfolding beliefs_def by (rule map_of_is_SomeI)
qed

lemma beliefs_dom: "dom (beliefs e reference) = fst ` set reference"
  by (simp add: beliefs_def dom_map_of_conv_image_fst image_image)

lemmas char_defs = is_digit_def is_space_def is_c_space_def

lemmas re_integer_defs = groups_def unmatched_def re_integer_at_def re_integer_body_def re_integer_tail_def
  findall_integer_def subn_integer_def

lemma failures_set:
  "(key', err) \<in> set (failures key funcs value) \<longleftrightarrow> key' = key \<and> (\<exists>func \<in> set funcs. func value = Inl err)"
  by (induction funcs) (auto simp: failures_def split: sum.splits)

lemma field_log_set:
  "entry \<in> set (concat (map (field_log e) reference)) \<longleftrightarrow>
     (\<exists>item \<in> set reference. truthy (snd item) \<and> fst entry = fst item
        \<and> (\<exists>func \<in> set (registered e (fst item)). func (snd item) = Inl (snd entry)))"
proof -
  obtain key err where entry: "entry = (key, err)" by (cases entry)
  have "entry \<in> set (field_log e item) \<longleftrightarrow>
          truthy (snd item) \<and> fst entry = fst item
          \<and> (\<exists>func \<in> set (registered e (fst item)). func (snd item) = Inl (snd entry))" for item
    unfolding entry by (simp add: field_log_def failures_set)
  then show ?thesis by simp
qed

text \<open>
  C1. For a reference (its dictionary, with distinct keys) \<^verbatim>\<open>calculate_belief\<close>
  returns a belief map and raises nothing. A populated field has at least one registered
  function, and its belief is the sum of the contributions of its registered functions divided
  by their number, where a function that raises contributes 0 and still counts in the divisor;
  a populated field with no entry in \<^verbatim>\<open>BELIEF_FUNCTIONS\<close> gets 1. The log holds
  exactly the exceptions that registered functions raise on populated fields.
\<close>

theorem calculate_belief_mean:
  assumes "distinct (map fst reference)"
  shows "\<exists>output lg. calculate_belief e reference = Inr (output, lg)
     \<and> (\<forall>item \<in> set reference. truthy (snd item) \<longrightarrow>
          registered e (fst item) \<noteq> []
          \<and> output (fst item)
              = Some (sum_list (map (contribution (snd item)) (registered e (fst item)))
                      / real (length (registered e (fst item)))))
     \<and> (\<forall>item \<in> set reference. truthy (snd item) \<and> map_of (BELIEF_FUNCTIONS e) (fst item) = None \<longrightarrow>
          output (fst item) = Some 1)
     \<and> (\<forall>entry. entry \<in> set lg \<longleftrightarrow>
          (\<exists>item \<in> set reference. truthy (snd item) \<and> fst entry = fst item
             \<and> (\<exists>func \<in> set (registered e (fst item)). func (snd item) = Inl (snd entry))))"
proof -
  have eq: "calculate_belief e reference = Inr (beliefs e reference, concat (map (field_log e) reference))"
    by (rule calculate_belief_eq)
  have 1: "beliefs e reference (fst item)
             = Some (sum_list (map (contribution (snd item)) (registered e (fst item)))
                      / real (length (registered e (fst item))))"
    if "item \<in> set reference" "truthy (snd item)" for item
    using beliefs_distinct [OF assms, of "fst item" "snd item" e] that
    by (simp add: field_belief_def)
  have 2: "beliefs e reference (fst item) = Some 1"
    if "item \<in> set reference" "truthy (snd item)" "map_of (BELIEF_FUNCTIONS e) (fst item) = None" for item
    using 1 [OF that(1,2)] that(3) by (simp add: registered_def contribution_def unity_def)
  show ?thesis
    unfolding eq
  proof (intro exI conjI ballI impI allI)
    show "Inr (beliefs e reference, concat (map (field_log e) reference))
            = Inr (beliefs e reference, concat (map (field_log e) reference))" ..
  next
    fix item assume "item \<in> set reference" "truthy (snd item)"
    then show "beliefs e reference (fst item)
             = Some (sum_list (map (contribution (snd item)) (registered e (fst item)))
                      / real (length (registered e (fst item))))" by (rule 1)
  next
    fix item assume "item \<in> set reference"
      "truthy (snd item) \<and> map_of (BELIEF_FUNCTIONS e) (fst item) = None"
    then show "beliefs e reference (fst item) = Some 1" using 2 by blast
  next
    fix item show "registered e (fst item) \<noteq> []" by (rule registered_nonempty)
  next
    fix entry
    show "entry \<in> set (concat (map (field_log e) reference)) \<longleftrightarrow>
          (\<exists>item \<in> set reference. truthy (snd item) \<and> fst entry = fst item
             \<and> (\<exists>func \<in> set (registered e (fst item)). func (snd item) = Inl (snd entry)))"
      by (rule field_log_set)
  qed
qed

theorem calculate_belief_mean_witness:
  "distinct (map fst test_reference)
   \<and> (\<exists>output lg. calculate_belief test_env test_reference = Inr (output, lg)
        \<and> output ''source'' = Some 1
        \<and> output ''volume'' = Some 0.8
        \<and> output ''year'' = Some 0.75
        \<and> output ''pages'' = Some 0.5
        \<and> output ''reftype'' = Some 1
        \<and> (''pages'', TypeError) \<in> set lg)"
proof -
  have d: "distinct (map fst test_reference)"
    by (simp add: test_reference_def)
  from calculate_belief_mean [OF d, of test_env]
  obtain out lg where c: "calculate_belief test_env test_reference = Inr (out, lg)"
    and m: "\<forall>item \<in> set test_reference. truthy (snd item) \<longrightarrow>
          registered test_env (fst item) \<noteq> []
          \<and> out (fst item)
              = Some (sum_list (map (contribution (snd item)) (registered test_env (fst item)))
                      / real (length (registered test_env (fst item))))"
    and l: "\<forall>entry. entry \<in> set lg \<longleftrightarrow>
          (\<exists>item \<in> set test_reference. truthy (snd item) \<and> fst entry = fst item
             \<and> (\<exists>func \<in> set (registered test_env (fst item)). func (snd item) = Inl (snd entry)))"
    by blast
  have "out ''source'' = Some 1"
    using m by (simp add: test_reference_def registered_def BELIEF_FUNCTIONS_def contribution_def
        does_not_contain_arxiv_def)
  moreover have "out ''volume'' = Some 0.8"
    using m by (simp add: test_reference_def registered_def BELIEF_FUNCTIONS_def contribution_def
        likely_def is_integer_like_def and_then_def re_integer_defs char_defs)
  moreover have "out ''year'' = Some 0.75"
    using m by (simp add: test_reference_def registered_def BELIEF_FUNCTIONS_def contribution_def
        is_integer_like_def is_integer_def is_year_def is_year_like_def is_year_like_body_def
        and_then_def findall_integer_def)
  moreover have "out ''pages'' = Some 0.5"
    using m by (simp add: test_reference_def registered_def BELIEF_FUNCTIONS_def contribution_def
        is_integer_like_def is_pages_def)
  moreover have "out ''reftype'' = Some 1"
    using m by (simp add: test_reference_def registered_def BELIEF_FUNCTIONS_def contribution_def
        unity_def)
  moreover have "(''pages'', TypeError) \<in> set lg"
    unfolding l [rule_format]
    by (simp add: test_reference_def registered_def BELIEF_FUNCTIONS_def is_pages_def)
  ultimately show ?thesis using c d by blast
qed

lemma collect_Inl: "collect f xs = Inl err \<Longrightarrow> \<exists>x \<in> set xs. f x = Inl err"
  by (induction xs) (auto split: sum.splits)

lemma collect_Inr: "(\<And>x. x \<in> set xs \<Longrightarrow> f x = Inr (g x)) \<Longrightarrow> collect f xs = Inr (map g xs)"
  by (induction xs) auto

lemma field_log_truthy:
  assumes "entry \<in> set (concat (map (field_log e) reference))"
  shows "\<exists>item \<in> set reference. truthy (snd item) \<and> fst item = fst entry"
proof -
  from assms obtain item where i: "item \<in> set reference" and m: "entry \<in> set (field_log e item)"
    by auto
  obtain key err where entry: "entry = (key, err)" by (cases entry)
  from m have "truthy (snd item) \<and> fst item = fst entry"
    unfolding entry by (simp add: field_log_def failures_set split: if_splits)
  with i show ?thesis by blast
qed

text \<open>
  C2. A field whose value is empty or zero gets belief 1 whatever the environment of the
  belief functions is, and no failure is ever logged for a field that is not populated; when
  every field of the reference is empty, the belief map has the keys of the reference, every
  value in it is 1, and nothing is logged.
\<close>

theorem calculate_belief_empty:
  "\<exists>output lg. calculate_belief e reference = Inr (output, lg)
     \<and> (distinct (map fst reference) \<longrightarrow>
          (\<forall>item \<in> set reference. \<not> truthy (snd item) \<longrightarrow> output (fst item) = Some 1))
     \<and> (\<forall>entry \<in> set lg. \<exists>item \<in> set reference. truthy (snd item) \<and> fst item = fst entry)
     \<and> ((\<forall>item \<in> set reference. \<not> truthy (snd item)) \<longrightarrow>
          dom output = fst ` set reference \<and> (\<forall>key \<in> dom output. output key = Some 1) \<and> lg = [])"
proof -
  have eq: "calculate_belief e reference = Inr (beliefs e reference, concat (map (field_log e) reference))"
    by (rule calculate_belief_eq)
  have 1: "\<forall>item \<in> set reference. \<not> truthy (snd item) \<longrightarrow> beliefs e reference (fst item) = Some 1"
    if "distinct (map fst reference)"
  proof (intro ballI impI)
    fix item assume "item \<in> set reference" "\<not> truthy (snd item)"
    then show "beliefs e reference (fst item) = Some 1"
      using beliefs_distinct [OF that, of "fst item" "snd item" e]
      by (simp add: field_belief_def)
  qed
  have 2: "\<forall>key \<in> dom (beliefs e reference). beliefs e reference key = Some 1"
    if a: "\<forall>item \<in> set reference. \<not> truthy (snd item)"
  proof
    fix key assume k: "key \<in> dom (beliefs e reference)"
    from k obtain b where b: "beliefs e reference key = Some b" by blast
    then have "(key, b) \<in> set (rev (map (\<lambda>item. (fst item, field_belief e (fst item) (snd item))) reference))"
      unfolding beliefs_def by (rule map_of_SomeD)
    then obtain item where "item \<in> set reference" "b = field_belief e (fst item) (snd item)"
      by auto
    with a have "b = 1" by (simp add: field_belief_def)
    with b show "beliefs e reference key = Some 1" by simp
  qed
  have 3: "concat (map (field_log e) reference) = []"
    if "\<forall>item \<in> set reference. \<not> truthy (snd item)"
    using that by (simp add: field_log_def)
  have 4: "\<forall>entry \<in> set (concat (map (field_log e) reference)).
             \<exists>item \<in> set reference. truthy (snd item) \<and> fst item = fst entry"
    using field_log_truthy [of _ e reference] by blast
  show ?thesis
    unfolding eq
    by (intro exI conjI impI) (rule refl, erule 1, rule 4, rule beliefs_dom, erule 2, erule 3)
qed

theorem calculate_belief_empty_witness:
  "distinct (map fst empty_reference)
   \<and> list_all (\<lambda>item. \<not> truthy (snd item)) empty_reference
   \<and> (\<exists>out lg. calculate_belief test_env empty_reference = Inr (out, lg)
         \<and> out ''title'' = Some 1 \<and> out ''year'' = Some 1 \<and> out ''authors'' = Some 1
         \<and> out ''identifiers'' = Some 1 \<and> out ''volume'' = Some 1
         \<and> dom out = {''title'', ''year'', ''authors'', ''identifiers'', ''volume''} \<and> lg = [])"
proof -
  have d: "distinct (map fst empty_reference)"
    by (simp add: empty_reference_def)
  have f: "\<forall>item \<in> set empty_reference. \<not> truthy (snd item)"
    by (simp add: empty_reference_def)
  from calculate_belief_empty [of test_env empty_reference] d f
  obtain out lg where c: "calculate_belief test_env empty_reference = Inr (out, lg)"
    and a: "\<forall>item \<in> set empty_reference. \<not> truthy (snd item) \<longrightarrow> out (fst item) = Some 1"
    and b: "dom out = fst ` set empty_reference" "lg = []"
    by blast
  from a have "out ''title'' = Some 1 \<and> out ''year'' = Some 1 \<and> out ''authors'' = Some 1
         \<and> out ''identifiers'' = Some 1 \<and> out ''volume'' = Some 1"
    by (simp add: empty_reference_def)
  moreover from b have "dom out = {''title'', ''year'', ''authors'', ''identifiers'', ''volume''}"
    by (simp add: empty_reference_def)
  ultimately show ?thesis
    using c d f b(2) by (auto simp: list_all_iff)
qed

lemma good_identifier_error: "good_identifier e ID \<noteq> Inl ZeroDivisionError"
  by (simp add: good_identifier_def Let_def split: pyval.splits)

lemma valid_identifier_truthy:
  assumes "truthy value"
  shows "valid_identifier e value \<noteq> Inl ZeroDivisionError"
proof
  assume z: "valid_identifier e value = Inl ZeroDivisionError"
  show False
  proof (cases "py_len value")
    case (Inl err)
    then have "err = TypeError" by (cases "value") auto
    with Inl z show False by (simp add: valid_identifier_def and_then_def)
  next
    case (Inr n)
    with assms have n: "n \<noteq> 0" by (cases "value") auto
    from Inr obtain ids where ids: "py_iter value = Inr ids" by (cases "value") auto
    show False
    proof (cases "collect (good_identifier e) ids")
      case (Inl err)
      with z Inr ids have "err = ZeroDivisionError"
        by (simp add: valid_identifier_def and_then_def)
      with Inl collect_Inl [of "good_identifier e" ids err] good_identifier_error [of e]
      show False by blast
    next
      case (Inr goods)
      with z \<open>py_len value = Inr n\<close> ids n show False
        by (simp add: valid_identifier_def and_then_def)
    qed
  qed
qed

text \<open>
  C9. \<^verbatim>\<open>valid_identifier\<close> raises \<^verbatim>\<open>ZeroDivisionError\<close> on the empty list. It
  does not raise it on a value that is not empty, so \<^verbatim>\<open>calculate_belief\<close>, which
  calls the belief functions on such values only, never logs a \<^verbatim>\<open>ZeroDivisionError\<close>
  for \<^verbatim>\<open>identifiers\<close>; an empty list of identifiers gets belief 1.
\<close>

theorem valid_identifier_zero_division:
  "valid_identifier e (PList []) = Inl ZeroDivisionError
   \<and> (truthy value \<longrightarrow> valid_identifier e value \<noteq> Inl ZeroDivisionError)
   \<and> (\<exists>output lg. calculate_belief e reference = Inr (output, lg)
         \<and> (''identifiers'', ZeroDivisionError) \<notin> set lg)
   \<and> calculate_belief e [(''identifiers'', PList [])] = Inr ([''identifiers'' \<mapsto> 1], [])"
proof (intro conjI impI)
  show "valid_identifier e (PList []) = Inl ZeroDivisionError"
    by (simp add: valid_identifier_def and_then_def)
  show "valid_identifier e value \<noteq> Inl ZeroDivisionError" if "truthy value"
    using that by (rule valid_identifier_truthy)
  show "calculate_belief e [(''identifiers'', PList [])] = Inr ([''identifiers'' \<mapsto> 1], [])"
    by (simp add: calculate_belief_def)
  have r: "registered e ''identifiers'' = [valid_identifier e]"
    by (simp add: registered_def BELIEF_FUNCTIONS_def)
  have "(''identifiers'', ZeroDivisionError) \<notin> set (concat (map (field_log e) reference))"
    using valid_identifier_truthy [of _ e]
    by (auto simp: field_log_def failures_set r split: if_splits)
  then show "\<exists>output lg. calculate_belief e reference = Inr (output, lg)
         \<and> (''identifiers'', ZeroDivisionError) \<notin> set lg"
    by (simp add: calculate_belief_eq)
qed

theorem valid_identifier_zero_division_witness:
  "truthy test_identifiers
   \<and> valid_identifier test_env test_identifiers \<noteq> Inl ZeroDivisionError
   \<and> valid_identifier test_env test_identifiers = Inr 0"
proof -
  have t: "truthy test_identifiers"
    by (simp add: test_identifiers_def)
  have "valid_identifier test_env test_identifiers = Inr 0"
    by (simp add: test_identifiers_def valid_identifier_def and_then_def good_identifier_def
        dict_get_def test_env_def)
  with t valid_identifier_zero_division [of test_env test_identifiers]
  show ?thesis by simp
qed

lemma registered_year: "registered e ''year'' = [is_integer_like, is_integer, is_year_like, is_year]"
  by (simp add: registered_def BELIEF_FUNCTIONS_def)

lemma is_year_like_non_str:
  "is_year_like PNone = Inr 0" "is_year_like (PBool b) = Inr 0" "is_year_like (PInt n) = Inr 0"
  "is_year_like (PFloat x) = Inr 0" "is_year_like (PList xs) = Inr 0" "is_year_like (PDict d) = Inr 0"
  by (simp_all add: is_year_like_def is_year_like_body_def findall_integer_def and_then_def)

lemma is_year_like_total: "\<exists>p. is_year_like v = Inr p"
  by (cases "is_year_like_body v") (simp_all add: is_year_like_def)

text \<open>
  C10. \<^verbatim>\<open>is_year_like\<close> returns 0 on every value that is not a string, and it never
  raises. A reference whose year is an integer other than 0 gets the year belief 3/4 when the
  year lies strictly between 1600 and 2100 and 1/2 otherwise, so never 1.
\<close>

theorem is_year_like_non_string:
  "is_year_like PNone = Inr 0 \<and> is_year_like (PBool b) = Inr 0 \<and> is_year_like (PInt n) = Inr 0
   \<and> is_year_like (PFloat x) = Inr 0 \<and> is_year_like (PList xs) = Inr 0
   \<and> is_year_like (PDict d) = Inr 0
   \<and> (\<exists>p. is_year_like v = Inr p)
   \<and> (distinct (map fst reference) \<and> (''year'', PInt n) \<in> set reference \<and> n \<noteq> 0 \<longrightarrow>
        (\<exists>out lg. calculate_belief e reference = Inr (out, lg)
           \<and> out ''year'' = Some (if 1600 < n \<and> n < 2100 then 3 / 4 else 1 / 2)
           \<and> out ''year'' \<noteq> Some 1))"
proof -
  have "beliefs e reference ''year'' = Some (if 1600 < n \<and> n < 2100 then 3 / 4 else 1 / 2)"
    if "distinct (map fst reference)" "(''year'', PInt n) \<in> set reference" "n \<noteq> 0"
    using beliefs_distinct [OF that(1,2), of e] that(3)
    by (simp add: field_belief_def registered_year contribution_def is_integer_like_def
        is_integer_def is_year_def is_year_like_non_str)
  then show ?thesis
    using is_year_like_total [of v]
    by (simp add: is_year_like_non_str calculate_belief_eq)
qed

theorem is_year_like_non_string_witness:
  "distinct (map fst test_reference) \<and> (''year'', PInt 2011) \<in> set test_reference \<and> (2011::int) \<noteq> 0
   \<and> (\<exists>out lg. calculate_belief test_env test_reference = Inr (out, lg)
         \<and> out ''year'' = Some (3 / 4))"
proof -
  have h: "distinct (map fst test_reference) \<and> (''year'', PInt 2011) \<in> set test_reference
           \<and> (2011::int) \<noteq> 0"
    by (simp add: test_reference_def)
  from is_year_like_non_string [where n = 2011 and reference = test_reference and e = test_env
      and v = PNone and b = True and x = 0 and xs = "[]" and d = "[]"] h
  have "\<exists>out lg. calculate_belief test_env test_reference = Inr (out, lg)
         \<and> out ''year'' = Some (3 / 4)"
    by auto
  with h show ?thesis by simp
qed

lemma re_integer_tail_le: "re_integer_tail r = Some n \<Longrightarrow> n \<le> length r"
  by (auto simp: re_integer_tail_def length_takeWhile_le split: if_splits)

lemma re_integer_body_Some:
  assumes "re_integer_body r = Some (g, n)"
  shows "g \<noteq> [] \<and> list_all is_digit g \<and> 1 \<le> n \<and> n \<le> length r"
proof -
  from assms obtain k where g: "g = takeWhile is_digit r" "g \<noteq> []"
    and k: "re_integer_tail (dropWhile is_digit r) = Some k" and n: "n = length g + k"
    by (auto simp: re_integer_body_def Let_def split: if_splits option.splits)
  have "length (takeWhile is_digit r) + length (dropWhile is_digit r) = length r"
    by (metis length_append takeWhile_dropWhile_id)
  with re_integer_tail_le [OF k] g n have "n \<le> length r" by simp
  moreover from g have "list_all is_digit g"
    using run_exists [of is_digit r] by simp
  moreover from g(2) n have "1 \<le> n" by (cases g) simp_all
  ultimately show ?thesis using g \<open>1 \<le> n\<close> by simp
qed

lemma re_integer_at_Some:
  assumes "re_integer_at b r = Some (g, n)"
  shows "g \<noteq> [] \<and> list_all is_digit g \<and> 1 \<le> n \<and> n \<le> length r"
proof (cases "b \<and> re_integer_body r \<noteq> None")
  case True
  with assms have "re_integer_body r = Some (g, n)"
    by (auto simp: re_integer_at_def)
  then show ?thesis by (rule re_integer_body_Some)
next
  case False
  with assms obtain k where k: "re_integer_body (dropWhile is_space r) = Some (g, k)"
    and n: "n = length (takeWhile is_space r) + k"
    by (auto simp: re_integer_at_def Let_def split: if_splits option.splits)
  have "length (takeWhile is_space r) + length (dropWhile is_space r) = length r"
    by (metis length_append takeWhile_dropWhile_id)
  with re_integer_body_Some [OF k] n show ?thesis by simp
qed

lemma segment_text_simps [simp]:
  "segment_text (Skipped c) = [c]" "segment_text (Matched m g) = m"
  by (simp_all add: segment_text_def)

lemma scan_text: "concat (map segment_text (re_integer_scan b s)) = s"
proof (induction b s rule: re_integer_scan.induct)
  case (1 at_beginning)
  show ?case by simp
next
  case (2 at_beginning c cs)
  show ?case
  proof (cases "re_integer_at at_beginning (c # cs)")
    case None
    with 2 show ?thesis by simp
  next
    case (Some p)
    obtain g n where p: "p = (g, n)" by (cases p)
    from re_integer_at_Some [of at_beginning "c # cs" g n] Some p
    have n: "1 \<le> n" by simp
    then have "take n (c # cs) @ drop (n - 1) cs = c # cs"
      by (cases n) simp_all
    moreover have "concat (map segment_text (re_integer_scan False (drop (n - 1) cs)))
                     = drop (n - 1) cs"
      using Some p by (intro 2(2)) simp_all
    ultimately show ?thesis
      using Some unfolding p by simp
  qed
qed

lemma segments_length:
  "length (concat (map segment_text segs)) = matched_length segs + length (unmatched segs)"
  by (induction segs)
     (auto simp: matched_length_def unmatched_def split: segment.splits)

lemma scan_length:
  "length s = matched_length (re_integer_scan b s) + length (unmatched (re_integer_scan b s))"
  using segments_length [of "re_integer_scan b s"] by (simp add: scan_text)

lemma scan_groups:
  "g \<in> set (groups (re_integer_scan b s)) \<Longrightarrow> g \<noteq> [] \<and> list_all is_digit g"
proof (induction b s rule: re_integer_scan.induct)
  case (1 at_beginning)
  then show ?case by (simp add: groups_def)
next
  case (2 at_beginning c cs)
  show ?case
  proof (cases "re_integer_at at_beginning (c # cs)")
    case None
    with 2 show ?thesis by (simp add: groups_def)
  next
    case (Some p)
    obtain g' n where p: "p = (g', n)" by (cases p)
    from 2(3) Some have "g = g' \<or> g \<in> set (groups (re_integer_scan False (drop (n - 1) cs)))"
      unfolding p by (auto simp: groups_def)
    moreover have "g' \<noteq> [] \<and> list_all is_digit g'"
      using re_integer_at_Some [of at_beginning "c # cs" g' n] Some p by simp
    moreover have "g \<noteq> [] \<and> list_all is_digit g"
      if "g \<in> set (groups (re_integer_scan False (drop (n - 1) cs)))"
      using Some p that by (intro 2(2)) simp_all
    ultimately show ?thesis by blast
  qed
qed

lemma is_integer_str:
  "is_integer (PStr t) = Inr (if parses_as_integer t then 1 else 0)"
  by (simp add: is_integer_def parses_as_integer_def split: option.splits)

lemma sum_list_indicator:
  "sum_list (map (\<lambda>t. if P t then 1 else 0) ts) = real (length (filter P ts))"
  by (induction ts) auto

lemma is_integer_like_str:
  "is_integer_like (PStr s) =
     Inr (if numeric_tokens s = [] then 0
          else (real (length (filter parses_as_integer (numeric_tokens s)))
                / real (length (numeric_tokens s)))
               * (real (numeric_portion s) / real (length s)))"
proof (cases "s = []")
  case True
  then show ?thesis
    by (simp add: is_integer_like_def numeric_tokens_def groups_def)
next
  case False
  have c: "collect (\<lambda>i. is_integer (PStr i)) (numeric_tokens s)
             = Inr (map (\<lambda>t. if parses_as_integer t then 1 else 0) (numeric_tokens s))"
    by (rule collect_Inr) (simp add: is_integer_str)
  have l: "int (length s) - int (length (unmatched (re_integer_scan True s)))
             = int (numeric_portion s)"
    using scan_length [of s True] by (simp add: numeric_portion_def)
  from False show ?thesis
    by (simp add: is_integer_like_def findall_integer_def subn_integer_def and_then_def
        numeric_tokens_def [symmetric] c l sum_list_indicator)
qed

lemma tokens_parse: "filter parses_as_integer (numeric_tokens s) = numeric_tokens s"
proof -
  have "parses_as_integer g" if "g \<in> set (numeric_tokens s)" for g
    using scan_groups [of g True s] that
    by (simp add: numeric_tokens_def parses_as_integer_def int_of_str_digits)
  then show ?thesis by (simp add: filter_id_conv)
qed

lemmas scan_defs = numeric_tokens_def numeric_portion_def matched_length_def groups_def
  re_integer_at_def re_integer_body_def re_integer_tail_def is_digit_def is_space_def

section \<open>Properties of is\_year, is\_pages and is\_integer\_like\<close>

text \<open>
  C7. \<^verbatim>\<open>is_year\<close> returns 1 exactly when \<^verbatim>\<open>int\<close> of its input is an integer
  strictly between 1600 and 2100. On a string and on an integer it returns 0 in every other
  case; the bounds themselves give 0. (A value that \<^verbatim>\<open>int\<close> rejects with a
  \<^verbatim>\<open>TypeError\<close>, such as \<^verbatim>\<open>None\<close> or a list, is outside the declared input type.)
\<close>

theorem is_year_spec:
  "(is_year v = Inr 1 \<longleftrightarrow> (\<exists>n. py_int v = Inr n \<and> 1600 < n \<and> n < 2100))
   \<and> is_year (PStr s) = Inr (if \<exists>n. int_of_str s = Some n \<and> 1600 < n \<and> n < 2100 then 1 else 0)
   \<and> is_year (PInt n) = Inr (if 1600 < n \<and> n < 2100 then 1 else 0)
   \<and> is_year (PInt 1975) = Inr 1
   \<and> is_year (PInt 2200) = Inr 0
   \<and> is_year (PStr ''abc'') = Inr 0
   \<and> is_year (PStr ''1975'') = Inr 1
   \<and> is_year (PInt 1600) = Inr 0
   \<and> is_year (PInt 2100) = Inr 0"
proof -
  have "is_year (PStr s) = Inr (if \<exists>n. int_of_str s = Some n \<and> 1600 < n \<and> n < 2100 then 1 else 0)"
    by (cases "int_of_str s") (simp_all add: is_year_def)
  moreover have "is_year (PStr ''abc'') = Inr 0"
    by (simp add: is_year_def int_of_str_def c_strip_def is_c_space_def is_digit_def)
  moreover have "is_year (PStr ''1975'') = Inr 1"
    by (simp add: is_year_def int_of_str_def c_strip_def is_c_space_def is_digit_def
        int_of_digits_def digit_value_def)
  ultimately show ?thesis
    using is_year_iff [of v] by (simp add: is_year_def)
qed

text \<open>
  C8. On a string \<^verbatim>\<open>is_pages\<close> returns 0 when its expression does not match, 1 when
  it matches and the first number is less than the second, and 0.5 when it matches otherwise.
  The expression matches exactly when the string begins with a run of digits, a run of
  separators (whitespace, dash, dot, underscore, slash, colon) and a run of digits; the two
  numbers are the first run and the second run taken as long as it goes.
\<close>

theorem is_pages_spec:
  "is_pages (PStr s) =
     Inr (case pages_match s of
            None \<Rightarrow> 0
          | Some (a, b) \<Rightarrow> if int_of_digits a < int_of_digits b then 1 else 0.5)
   \<and> (pages_match s = Some (g1, g2) \<longleftrightarrow>
        (\<exists>sep rest. s = g1 @ sep @ g2 @ rest \<and> digit_run g1 \<and> separator_run sep \<and> digit_run g2
           \<and> ends_run is_digit rest))
   \<and> (pages_match s = None \<longleftrightarrow>
        \<not> (\<exists>a sep b rest. s = a @ sep @ b @ rest \<and> digit_run a \<and> separator_run sep \<and> digit_run b))
   \<and> is_pages (PStr ''12-34'') = Inr 1
   \<and> is_pages (PStr ''34-12'') = Inr 0.5
   \<and> is_pages (PStr ''junk'') = Inr 0"
proof -
  have "is_pages (PStr ''12-34'') = Inr 1 \<and> is_pages (PStr ''34-12'') = Inr 0.5
        \<and> is_pages (PStr ''junk'') = Inr 0"
    by (simp add: is_pages_str pages_match_def is_digit_def is_pages_separator_def is_space_def
        int_of_digits_def digit_value_def)
  then show ?thesis
    using is_pages_str [of s] pages_match_Some [of s g1 g2] pages_match_None [of s] by simp
qed

text \<open>
  C6. On a string in which \<^verbatim>\<open>RE_INTEGER\<close> recognizes no numeric token
  \<^verbatim>\<open>is_integer_like\<close> returns 0; otherwise it returns the fraction of the tokens that
  \<^verbatim>\<open>int\<close> accepts, times the fraction of the length of the string that the matches
  occupy (the characters that \<^verbatim>\<open>re.subn\<close> removes). Every token is a run of digits
  and is accepted. An integer gives 1, an empty string, list or dictionary gives 0.
\<close>

theorem is_integer_like_spec:
  "is_integer_like (PStr s) =
     Inr (if numeric_tokens s = [] then 0
          else (real (length (filter parses_as_integer (numeric_tokens s)))
                / real (length (numeric_tokens s)))
               * (real (numeric_portion s) / real (length s)))
   \<and> length s = numeric_portion s + length (unmatched (re_integer_scan True s))
   \<and> list_all digit_run (numeric_tokens s)
   \<and> filter parses_as_integer (numeric_tokens s) = numeric_tokens s
   \<and> is_integer_like (PInt n) = Inr 1
   \<and> is_integer_like (PStr []) = Inr 0
   \<and> is_integer_like (PList []) = Inr 0
   \<and> is_integer_like (PDict []) = Inr 0
   \<and> is_integer_like (PStr ''abc'') = Inr 0
   \<and> is_integer_like (PStr ''123'') = Inr 1
   \<and> is_integer_like (PStr '' 12 ab'') = Inr (2 / 3)
   \<and> is_integer_like (PStr ''1 2 3'') = Inr (4 / 5)"
proof -
  have "list_all digit_run (numeric_tokens s)"
    using scan_groups [of _ True s] by (simp add: list_all_iff digit_run_def numeric_tokens_def)
  moreover have "length s = numeric_portion s + length (unmatched (re_integer_scan True s))"
    using scan_length [of s True] by (simp add: numeric_portion_def)
  moreover have "is_integer_like (PStr ''abc'') = Inr 0"
    unfolding is_integer_like_str tokens_parse by (simp add: scan_defs)
  moreover have "is_integer_like (PStr ''123'') = Inr 1"
    unfolding is_integer_like_str tokens_parse by (simp add: scan_defs)
  moreover have "is_integer_like (PStr '' 12 ab'') = Inr (2 / 3)"
    unfolding is_integer_like_str tokens_parse by (simp add: scan_defs)
  moreover have "is_integer_like (PStr ''1 2 3'') = Inr (4 / 5)"
    unfolding is_integer_like_str tokens_parse by (simp add: scan_defs)
  moreover have "is_integer_like (PInt n) = Inr 1" "is_integer_like (PStr []) = Inr 0"
    "is_integer_like (PList []) = Inr 0" "is_integer_like (PDict []) = Inr 0"
    by (simp_all add: is_integer_like_def)
  ultimately show ?thesis
    using is_integer_like_str [of s] tokens_parse [of s] by simp
qed

section \<open>Properties of normalize\_record\<close>





























































lemma hyphens_inserted_refl: "hyphens_inserted s s"
  by (induction s) (auto intro: hyphens_inserted.intros)
























text \<open>
  Neither condition on the repair of the identifier can be left out. With a code that begins
  with a hyphen every call inserts another hyphen; and two occurrences of the same code that
  overlap, here of \<^verbatim>\<open>hepth\<close>, are repaired one per call.
\<close>

lemma leading_hyphen_not_idempotent:
  "single_drop [''-a''] (PStr ''a'')
   \<and> fix_arxiv_id [''-a''] (PStr ''a'') = Inr (PStr ''-a'')
   \<and> fix_arxiv_id [''-a''] (PStr ''-a'') = Inr (PStr ''--a'')"
  by (simp add: dropped_codes_def dehyphenated_def py_replace_def and_then_def replace_method_def)

lemma overlap_not_idempotent:
  "dropped_codes arxiv_archives ''hepthepth'' = 2
   \<and> fix_arxiv_id arxiv_archives (PStr ''hepthepth'') = Inr (PStr ''hep-thepth'')
   \<and> fix_arxiv_id arxiv_archives (PStr ''hep-thepth'') = Inr (PStr ''hep-thep-th'')"
  by (simp add: dropped_codes_def dehyphenated_def arxiv_archives_def py_replace_def and_then_def
      replace_method_def)



end
